theory Spec2Isabelle
  imports Complex_Main "HOL-Library.Word"
begin

unbundle bit_operations_syntax

section \<open>Asynchronous Modbus RTU transport (umodbus/asynchronous/serial.py)\<close>

subsection \<open>Data model\<close>

type_synonym byte = "8 word"

text \<open>
  The fields of \<open>AsyncRTUServer\<close> that the timing and framing code reads: the character
  time and the inter-frame silence interval, both in microseconds (Python's unbounded
  integers), and the optional direction-control pin (\<open>None\<close> when no \<open>ctrl_pin\<close> was
  given, otherwise the pin number the \<open>Pin\<close> object was made from).
\<close>

record server =
  t1char :: int
  t35chars :: int
  ctrlPin :: "int option"

datatype error = TypeError | ZeroDivisionError | IndexError

text \<open>\<open>US_TO_S = 1 / 1_000_000\<close>: the factor from microseconds to the seconds that
  \<open>asyncio.sleep\<close> and \<open>asyncio.wait_for\<close> take. The source multiplies in floating
  point; the model keeps the exact rational.\<close>

definition US_TO_S :: rat where
  "US_TO_S = 1 / 1000000"

subsection \<open>The constructor\<close>

text \<open>
  \<open>AsyncRTUServer.__init__\<close>. The UART is built first, from \<open>pins[0]\<close> and \<open>pins[1]\<close>:
  with the default \<open>pins=None\<close> the subscript raises \<open>TypeError\<close>. Then the two timing
  constants are computed with floor division, which raises \<open>ZeroDivisionError\<close> for a
  baudrate of 0. Whether the UART driver itself accepts the configuration is outside the
  source and is not modelled.
\<close>

definition init ::
  "int \<Rightarrow> int \<Rightarrow> int \<Rightarrow> (int \<times> int) option \<Rightarrow> int option \<Rightarrow> error + server" where
  "init baudrate data_bits stop_bits pins ctrl_pin =
     (case pins of
        None \<Rightarrow> Inl TypeError
      | Some (tx, rx) \<Rightarrow>
          (let char_const = data_bits + stop_bits + 2 in
           if baudrate = 0 then Inl ZeroDivisionError
           else Inr \<lparr> t1char = (1000000 * char_const) div baudrate,
                      t35chars = (if baudrate \<le> 19200
                                  then (3500000 * char_const) div baudrate
                                  else 1750),
                      ctrlPin = ctrl_pin \<rparr>))"

subsection \<open>Effects\<close>

text \<open>
  What the transport does to its collaborators, as a trace: a level written to the
  direction pin, a sleep (argument in seconds), a write to the UART stream writer, a
  drain of the writer, a plain read of the stream reader with the bytes it returned, and
  a read under \<open>asyncio.wait_for\<close> with its timeout in seconds and the bytes it
  returned (\<open>None\<close> when \<open>asyncio.TimeoutError\<close> was raised).
\<close>

datatype event =
    PinSet int
  | Sleep rat
  | UartWrite "byte list"
  | Drain
  | UartRead "byte list"
  | WaitForRead rat "byte list option"

subsection \<open>The line\<close>

text \<open>
  What the UART receives is a finite history of arrivals: each is the idle time in
  seconds from the moment a read is issued until the chunk is there, and the chunk.
  After the last arrival the line stays silent.

  \<open>await self._uart_reader.read()\<close> returns the next chunk once it is there, however
  long that takes, and does not return (\<open>None\<close>) on a line that stays silent: it is the
  read that \<open>_uart_read_frame\<close> puts under \<open>asyncio.wait_for\<close> so that a silent line ends
  its loop.
\<close>

fun uart_reader_read ::
  "(rat \<times> byte list) list \<Rightarrow> (byte list \<times> (rat \<times> byte list) list) option" where
  "uart_reader_read [] = None"
| "uart_reader_read ((idle, data) # rest) = Some (data, rest)"

subsection \<open>Responder-mode reception\<close>

text \<open>
  The body of \<open>for _ in range(1, 40)\<close> in \<open>_uart_read\<close>, one equation per state of
  the iterator; the read at the top of the body has no timeout, so the call does not
  return (\<open>None\<close>) when that read does not. \<open>exit_read\<close> is \<open>self._exit_read\<close> of
  \<open>CommonRTUFunctions\<close>, whose code is not part of the sources at hand: it is a
  parameter.
\<close>

fun uart_read_loop ::
  "(byte list \<Rightarrow> bool) \<Rightarrow> rat \<Rightarrow> nat list \<Rightarrow> byte list \<Rightarrow> (rat \<times> byte list) list
     \<Rightarrow> (byte list \<times> event list) option" where
  "uart_read_loop exit_read wait_period [] response rx = Some (response, [])"
| "uart_read_loop exit_read wait_period (i # is) response rx =
     (case uart_reader_read rx of
        None \<Rightarrow> None
      | Some (data, rx') \<Rightarrow>
          (let response' = response @ data
           in if exit_read response' then Some (response', [UartRead data])
              else (case uart_read_loop exit_read wait_period is response' rx' of
                      None \<Rightarrow> None
                    | Some (r, tr) \<Rightarrow> Some (r, UartRead data # Sleep wait_period # tr))))"

definition uart_read ::
  "server \<Rightarrow> (byte list \<Rightarrow> bool) \<Rightarrow> (rat \<times> byte list) list
     \<Rightarrow> (byte list \<times> event list) option" where
  "uart_read srv exit_read rx =
     (let wait_period = of_int (t35chars srv) * US_TO_S
      in uart_read_loop exit_read wait_period [1..<40] [] rx)"

subsection \<open>Host-mode reception\<close>

text \<open>
  In \<open>_uart_read_frame\<close> each read runs under \<open>asyncio.wait_for\<close>: it returns its chunk
  when the idle time before it is shorter than the timeout and raises \<open>TimeoutError\<close>
  otherwise; on a line that stays silent every such read times out.

  \<open>read_frame_loop\<close> is the \<open>while True\<close> loop inside the \<open>try\<close>: the current timeout,
  the frame timeout, the arrivals still to come and \<open>received_bytes\<close>.
\<close>

fun read_frame_loop ::
  "rat \<Rightarrow> rat \<Rightarrow> (rat \<times> byte list) list \<Rightarrow> byte list \<Rightarrow> byte list \<times> event list" where
  "read_frame_loop current_timeout frame_timeout [] received_bytes =
     (received_bytes, [WaitForRead current_timeout None])"
| "read_frame_loop current_timeout frame_timeout ((idle, data) # rest) received_bytes =
     (if idle < current_timeout
      then (let (r, tr) = read_frame_loop frame_timeout frame_timeout rest
                            (received_bytes @ data)
            in (r, WaitForRead current_timeout (Some data) # tr))
      else (received_bytes, [WaitForRead current_timeout None]))"

definition uart_read_frame ::
  "server \<Rightarrow> int option \<Rightarrow> (rat \<times> byte list) list \<Rightarrow> byte list \<times> event list" where
  "uart_read_frame srv timeout arrivals =
     (let timeout = (case timeout of
                       None \<Rightarrow> 2 * t35chars srv
                     | Some t \<Rightarrow> if t = 0 then 2 * t35chars srv else t);
          total_timeout = of_int timeout * US_TO_S;
          frame_timeout = of_int (t35chars srv) * US_TO_S
      in read_frame_loop total_timeout frame_timeout arrivals [])"

subsection \<open>RTU framing\<close>

text \<open>
  Modelled from the spec: the CRC-16 engine (\<open>_calculate_crc16\<close> of
  \<open>CommonRTUFunctions\<close>, umodbus/serial.py, is not among the sources). The spec gives
  polynomial mask 0xA001, eight shifts per byte and seed 0xFFFF, and the CRC is
  little-endian on the wire.
\<close>

fun crc16_shift :: "nat \<Rightarrow> 16 word \<Rightarrow> 16 word" where
  "crc16_shift 0 crc = crc"
| "crc16_shift (Suc n) crc =
     crc16_shift n (if bit crc 0 then drop_bit 1 crc XOR 0xA001 else drop_bit 1 crc)"

text \<open>Modelled from the spec: one byte of the CRC-16 engine (not among the sources):
  the byte is XORed into the low half, then come the eight shifts.\<close>

definition crc16_byte :: "16 word \<Rightarrow> byte \<Rightarrow> 16 word" where
  "crc16_byte crc b = crc16_shift 8 (crc XOR ucast b)"

text \<open>Modelled from the spec: \<open>crc16(bytes)\<close> of the CRC-16 engine (not among the
  sources), from the seed 0xFFFF over all bytes.\<close>

definition crc16 :: "byte list \<Rightarrow> 16 word" where
  "crc16 bs = foldl crc16_byte 0xFFFF bs"

text \<open>Modelled from the spec: the CRC as it stands on the wire, low byte first (the
  packing inside \<open>_calculate_crc16\<close>, not among the sources).\<close>

definition crc_bytes :: "16 word \<Rightarrow> byte list" where
  "crc_bytes crc = [ucast crc, ucast (drop_bit 8 crc)]"

text \<open>
  Modelled from the spec: the RTU \<open>wrap\<close> (\<open>_form_serial_pdu\<close> of \<open>CommonRTUFunctions\<close>
  is not among the sources): the unit address, the PDU, then the CRC of both,
  little-endian.
\<close>

definition form_serial_pdu :: "byte list \<Rightarrow> byte \<Rightarrow> byte list" where
  "form_serial_pdu modbus_pdu slave_addr =
     (let serial_pdu = slave_addr # modbus_pdu
      in serial_pdu @ crc_bytes (crc16 serial_pdu))"

text \<open>
  Modelled from the spec: the RTU \<open>unwrap\<close> with the responder's address filter
  (\<open>_parse_request\<close> of \<open>CommonRTUFunctions\<close> is not among the sources). A frame is
  dropped (\<open>None\<close>) when it is truncated (too short for an address, a function code and
  a CRC), when its unit address is not in the configured address list, or when its CRC
  is wrong; otherwise the frame without its CRC is returned. With no address list
  (\<open>unit_addr_list=None\<close>) nothing is filtered by address.
\<close>

definition parse_request :: "byte list \<Rightarrow> int list option \<Rightarrow> byte list option" where
  "parse_request req unit_addr_list =
     (case req of
        [] \<Rightarrow> None
      | unit_addr # _ \<Rightarrow>
          if length req < 4 then None
          else if (case unit_addr_list of
                     None \<Rightarrow> False
                   | Some addrs \<Rightarrow> uint unit_addr \<notin> set addrs) then None
          else (let req_no_crc = take (length req - 2) req;
                    req_crc = drop (length req - 2) req
                in if req_crc = crc_bytes (crc16 req_no_crc) then Some req_no_crc
                   else None))"

text \<open>
  Modelled from the spec: the exception response PDU (\<open>functions.exception_response\<close>
  is not among the sources): the function code OR 0x80, then the exception code.
\<close>

definition exception_response :: "byte \<Rightarrow> byte \<Rightarrow> byte list" where
  "exception_response function_code exception_code =
     [function_code OR 0x80, exception_code]"

subsection \<open>The world a send acts on\<close>

text \<open>
  The collaborators of \<open>_send\<close>: a monotonic clock (\<open>now\<close>, the microseconds elapsed),
  which \<open>time.ticks_us()\<close> reads modulo \<open>ticks_period\<close> (0 for a counter that does not
  wrap), the direction pin and the UART writer, whose calls are recorded in \<open>trace\<close> with
  the time at which they are made, and \<open>latency\<close>, the microseconds that each call that
  suspends (a sleep, a write, a drain) takes beyond its minimum, one entry per call and 0
  once the list is used up.
\<close>

record world =
  now :: int
  ticks_period :: nat
  latency :: "nat list"
  trace :: "(int \<times> event) list"

definition emit :: "event \<Rightarrow> world \<Rightarrow> world" where
  "emit e w = w\<lparr> trace := trace w @ [(now w, e)] \<rparr>"

definition pass :: "int \<Rightarrow> world \<Rightarrow> world" where
  "pass least w =
     (case latency w of
        [] \<Rightarrow> w\<lparr> now := now w + least \<rparr>
      | extra # later \<Rightarrow> w\<lparr> now := now w + least + int extra, latency := later \<rparr>)"

definition ticks_us :: "world \<Rightarrow> int" where
  "ticks_us w = (if ticks_period w = 0 then now w else now w mod int (ticks_period w))"

definition pin_set :: "int \<Rightarrow> world \<Rightarrow> world" where
  "pin_set level w = emit (PinSet level) w"

text \<open>\<open>asyncio.sleep(secs)\<close> suspends for at least \<open>secs\<close> seconds, and not at all
  beyond the scheduler's latency when \<open>secs\<close> is zero or negative.\<close>

definition sleep :: "rat \<Rightarrow> world \<Rightarrow> world" where
  "sleep secs w = pass (max 0 \<lceil>secs * 1000000\<rceil>) (emit (Sleep secs) w)"

definition writer_write :: "byte list \<Rightarrow> world \<Rightarrow> world" where
  "writer_write bs w = pass 0 (emit (UartWrite bs) w)"

definition writer_drain :: "world \<Rightarrow> world" where
  "writer_drain w = pass 0 (emit Drain w)"

subsection \<open>Sending\<close>

text \<open>\<open>_send\<close>, statement by statement; \<open>if self._ctrlPin:\<close> holds exactly when a pin
  object was made.\<close>

definition send :: "server \<Rightarrow> byte list \<Rightarrow> byte \<Rightarrow> world \<Rightarrow> world" where
  "send srv modbus_pdu slave_addr w =
     (let serial_pdu = form_serial_pdu modbus_pdu slave_addr;
          send_start_time = 0;
          (send_start_time, w) =
            (case ctrlPin srv of
               None \<Rightarrow> (send_start_time, w)
             | Some pin \<Rightarrow>
                 (let w = pin_set 1 w;
                      w = sleep (1 / 1000) w
                  in (ticks_us w, w)));
          w = writer_write serial_pdu w;
          w = writer_drain w
      in case ctrlPin srv of
           None \<Rightarrow> w
         | Some pin \<Rightarrow>
             (let total_frame_time_us = t1char srv * int (length serial_pdu);
                  target_time = send_start_time + total_frame_time_us;
                  time_difference = target_time - ticks_us w;
                  w = sleep (of_int time_difference * US_TO_S) w
              in pin_set 0 w))"

text \<open>
  Modelled from the spec: the inherited \<open>send_exception_response\<close> (of
  \<open>CommonRTUFunctions\<close>, not among the sources) builds the exception PDU and hands it to
  \<open>_send\<close>; the asynchronous override awaits that.
\<close>

definition send_exception_response :: "server \<Rightarrow> byte \<Rightarrow> byte \<Rightarrow> byte \<Rightarrow> world \<Rightarrow> world" where
  "send_exception_response srv slave_addr function_code exception_code w =
     send srv (exception_response function_code exception_code) slave_addr w"

subsection \<open>Receiving a request\<close>

text \<open>
  \<open>get_request\<close>. \<open>new_request\<close> is the constructor \<open>AsyncRequest(interface, data)\<close>,
  whose code is not among the sources: it is a parameter that returns the request or the
  function code and exception code of the \<open>ModbusException\<close> it raises. The result is
  what the caller gets (\<open>None\<close> where the source falls off the end), the reads made, and
  the world after any response was sent.
\<close>

definition get_request ::
  "server \<Rightarrow> (byte list \<Rightarrow> (byte \<times> byte) + 'r) \<Rightarrow> int list option \<Rightarrow> int option
     \<Rightarrow> (rat \<times> byte list) list \<Rightarrow> world \<Rightarrow> error + ('r option \<times> event list \<times> world)" where
  "get_request srv new_request unit_addr_list timeout arrivals w =
     (let (req, reads) = uart_read_frame srv timeout arrivals;
          req_no_crc = parse_request req unit_addr_list
      in case req_no_crc of
           None \<Rightarrow> Inr (None, reads, w)
         | Some data \<Rightarrow>
             (case new_request data of
                Inr request \<Rightarrow> Inr (Some request, reads, w)
              | Inl (function_code, exception_code) \<Rightarrow>
                  (case req of
                     [] \<Rightarrow> Inl IndexError
                   | slave_addr # _ \<Rightarrow>
                       Inr (None, reads,
                            send_exception_response srv slave_addr function_code
                              exception_code w))))"

subsection \<open>Reading a trace\<close>

text \<open>The chunks that the plain reads of a trace returned, the timeouts and the
  outcomes of its reads under \<open>wait_for\<close>, and the trace of a list of reads with one
  sleep between each two.\<close>

fun reads_of :: "event list \<Rightarrow> byte list list" where
  "reads_of [] = []"
| "reads_of (UartRead c # tr) = c # reads_of tr"
| "reads_of (e # tr) = reads_of tr"

fun wait_timeouts :: "event list \<Rightarrow> rat list" where
  "wait_timeouts [] = []"
| "wait_timeouts (WaitForRead t got # tr) = t # wait_timeouts tr"
| "wait_timeouts (e # tr) = wait_timeouts tr"

fun wait_results :: "event list \<Rightarrow> byte list option list" where
  "wait_results [] = []"
| "wait_results (WaitForRead t got # tr) = got # wait_results tr"
| "wait_results (e # tr) = wait_results tr"

fun paced :: "rat \<Rightarrow> byte list list \<Rightarrow> event list" where
  "paced wait_period [] = []"
| "paced wait_period [c] = [UartRead c]"
| "paced wait_period (c # cs) = UartRead c # Sleep wait_period # paced wait_period cs"

section \<open>Host-side validation of a Modbus TCP response\<close>

text \<open>
  Modelled from the spec: the TCP host (\<open>umodbus/tcp.py\<close>, class \<open>TCP\<close>) is not among the
  sources; only its tests are (tests/test_tcp_example.py). The host owns a 16-bit
  transaction counter that wraps. The errors are the host-side ones the spec names.
\<close>

record tcp_host =
  trans_id_ctr :: "16 word"

text \<open>Modelled from the spec: the host-side errors of its section 7 (the source of the
  TCP host, which raises them, is not among the sources).\<close>

datatype host_error =
    FrameError
  | UnexpectedTransaction
  | ProtocolViolation
  | RemoteException byte
  | Timeout

text \<open>Modelled from the spec: the big-endian 16-bit fields of the MBAP header (the
  \<open>struct\<close> packing of umodbus/tcp.py, not among the sources), read and written.\<close>

definition be16 :: "byte \<Rightarrow> byte \<Rightarrow> 16 word" where
  "be16 hi lo = push_bit 8 (ucast hi) OR ucast lo"

text \<open>Modelled from the spec: a 16-bit field of the MBAP header on the wire, high byte
  first (umodbus/tcp.py is not among the sources).\<close>

definition be16_bytes :: "16 word \<Rightarrow> byte list" where
  "be16_bytes v = [ucast (drop_bit 8 v), ucast v]"

text \<open>
  Modelled from the spec: the TCP \<open>wrap\<close> (\<open>_create_mbap_hdr\<close>): the transaction id taken
  from the counter, protocol id 0, the length of unit id and PDU, and the unit id, all
  big-endian; the counter then moves on, modulo 65536. The test of \<open>_create_mbap_hdr\<close>
  fixes that the header carries the counter's value before the increment.
\<close>

definition create_mbap_hdr :: "tcp_host \<Rightarrow> byte \<Rightarrow> byte list \<Rightarrow> (byte list \<times> 16 word) \<times> tcp_host" where
  "create_mbap_hdr host slave_addr modbus_pdu =
     (let trans_id = trans_id_ctr host;
          mbap_hdr = be16_bytes trans_id @ be16_bytes 0
                       @ be16_bytes (word_of_nat (length modbus_pdu + 1)) @ [slave_addr]
      in ((mbap_hdr, trans_id), host\<lparr> trans_id_ctr := trans_id + 1 \<rparr>))"

text \<open>
  Modelled from the spec: the TCP \<open>unwrap\<close>: a frame shorter than the 7-byte MBAP
  header, with a protocol id other than 0 or with a length field that does not match the
  bytes after it is a \<open>FrameError\<close>; otherwise the unit id, the PDU and, as trailing
  metadata, the transaction id.
\<close>

definition tcp_unwrap :: "byte list \<Rightarrow> host_error + (byte \<times> byte list \<times> 16 word)" where
  "tcp_unwrap wire =
     (if length wire < 7 then Inl FrameError
      else (let transaction_id = be16 (wire ! 0) (wire ! 1);
                protocol_id = be16 (wire ! 2) (wire ! 3);
                len = be16 (wire ! 4) (wire ! 5);
                unit_id = wire ! 6;
                pdu = drop 7 wire
            in if protocol_id \<noteq> 0 \<or> unat len \<noteq> 1 + length pdu then Inl FrameError
               else Inr (unit_id, pdu, transaction_id)))"

text \<open>
  Modelled from the spec: \<open>_validate_resp_hdr\<close>, step 5 of the host engine. The
  transaction id of the unwrapped response must be the one issued
  (\<open>UnexpectedTransaction\<close>), the unit address the one requested, and the function code
  the request's or the request's OR 0x80 (anything else a \<open>ProtocolViolation\<close>); an
  exception response is surfaced as \<open>RemoteException\<close> with its code. The spec names no
  error for a wrong unit address; \<open>ProtocolViolation\<close> is used. The result is the payload
  after the function code, as the tests of \<open>_validate_resp_hdr\<close> expect, together with
  the host's state.
\<close>

definition validate_resp_hdr ::
  "tcp_host \<Rightarrow> byte list \<Rightarrow> 16 word \<Rightarrow> byte \<Rightarrow> byte
     \<Rightarrow> (host_error + byte list) \<times> tcp_host" where
  "validate_resp_hdr host response trans_id slave_addr function_code =
     (case tcp_unwrap response of
        Inl e \<Rightarrow> (Inl e, host)
      | Inr (rec_uid, pdu, rec_tid) \<Rightarrow>
          if rec_tid \<noteq> trans_id then (Inl UnexpectedTransaction, host)
          else if rec_uid \<noteq> slave_addr then (Inl ProtocolViolation, host)
          else (case pdu of
                  [] \<Rightarrow> (Inl FrameError, host)
                | rec_fc # payload \<Rightarrow>
                    if rec_fc = function_code then (Inr payload, host)
                    else if rec_fc = (function_code OR 0x80)
                    then (case payload of
                            [] \<Rightarrow> (Inl FrameError, host)
                          | code # _ \<Rightarrow> (Inl (RemoteException code), host))
                    else (Inl ProtocolViolation, host)))"

text \<open>
  Modelled from the spec: the byte-stream transport of a TCP host (the socket of
  umodbus/tcp.py, not among the sources): the frames written so far and the responses
  still to come.
\<close>

record link =
  sent :: "byte list list"
  inbox :: "byte list list"

text \<open>
  Modelled from the spec: one request of the host engine over TCP (\<open>_send_receive\<close> of
  umodbus/tcp.py, not among the sources), steps 2 to 5: the next transaction id is
  allocated, the frame is written once, one response is read and validated; with no
  response to come the read times out. No step is repeated.
\<close>

definition tcp_send_receive ::
  "tcp_host \<Rightarrow> link \<Rightarrow> byte \<Rightarrow> byte \<Rightarrow> byte list
     \<Rightarrow> (host_error + byte list) \<times> tcp_host \<times> link" where
  "tcp_send_receive host conn slave_addr function_code request_fields =
     (let modbus_pdu = function_code # request_fields;
          ((mbap_hdr, trans_id), host) = create_mbap_hdr host slave_addr modbus_pdu;
          conn = conn\<lparr> sent := sent conn @ [mbap_hdr @ modbus_pdu] \<rparr>
      in case inbox conn of
           [] \<Rightarrow> (Inl Timeout, host, conn)
         | response # later \<Rightarrow>
             (let conn = conn\<lparr> inbox := later \<rparr>;
                  (result, host) = validate_resp_hdr host response trans_id slave_addr
                                     function_code
              in (result, host, conn)))"

section \<open>Properties\<close>

subsection \<open>Timing constants\<close>

text \<open>
  The two ways the constructor raises: no pins to subscript, and a baudrate of 0 in the
  floor divisions.
\<close>

lemma init_raises:
  "init baudrate data_bits stop_bits None ctrl_pin = Inl TypeError"
  "init 0 data_bits stop_bits (Some pins) ctrl_pin = Inl ZeroDivisionError"
  by (simp_all add: init_def split: prod.splits)

text \<open>
  C6. The constructor accepts every baudrate other than 0 with any data_bits and
  stop_bits (given pins), and the server it builds has the character time \<open>t1char\<close> equal
  to \<open>1_000_000 * (data_bits + stop_bits + 2) // baudrate\<close> microseconds, by floor
  division of integers; the record built is the one computed from the configuration.
\<close>

theorem init_t1char:
  assumes "baudrate \<noteq> 0"
  shows "init baudrate data_bits stop_bits (Some pins) ctrl_pin =
           Inr \<lparr> t1char = (1000000 * (data_bits + stop_bits + 2)) div baudrate,
                 t35chars = (if baudrate \<le> 19200
                             then (3500000 * (data_bits + stop_bits + 2)) div baudrate
                             else 1750),
                 ctrlPin = ctrl_pin \<rparr>"
  using assms
  by (simp add: init_def Let_def split: prod.splits)

theorem init_t1char_witness:
  "(9600 :: int) \<noteq> 0
   \<and> init 9600 8 1 (Some (25, 26)) None
     = Inr \<lparr> t1char = 1145, t35chars = 4010, ctrlPin = None \<rparr>
   \<and> (1145 :: int) = (1000000 * (8 + 1 + 2)) div 9600"
proof -
  have h: "(9600 :: int) \<noteq> 0"
    by simp
  show ?thesis
    using h init_t1char [OF h, of 8 1 "(25, 26)" None] by simp
qed

text \<open>
  C5. For every configuration the constructor accepts (a baudrate other than 0, given
  pins), the server it builds has the inter-frame silence interval \<open>t35chars\<close> equal to
  \<open>3_500_000 * (data_bits + stop_bits + 2) // baudrate\<close> microseconds (3.5 character
  times, by floor division of integers) when the baudrate is at most 19200, and equal to
  the fixed 1750 microseconds when the baudrate is above 19200.
\<close>

theorem init_t35chars:
  assumes "baudrate \<noteq> 0"
  shows "(baudrate \<le> 19200 \<longrightarrow>
            init baudrate data_bits stop_bits (Some pins) ctrl_pin =
              Inr \<lparr> t1char = (1000000 * (data_bits + stop_bits + 2)) div baudrate,
                    t35chars = (3500000 * (data_bits + stop_bits + 2)) div baudrate,
                    ctrlPin = ctrl_pin \<rparr>)
       \<and> (19200 < baudrate \<longrightarrow>
            init baudrate data_bits stop_bits (Some pins) ctrl_pin =
              Inr \<lparr> t1char = (1000000 * (data_bits + stop_bits + 2)) div baudrate,
                    t35chars = 1750,
                    ctrlPin = ctrl_pin \<rparr>)"
  using assms
  by (simp add: init_def Let_def split: prod.splits)

theorem init_t35chars_witness:
  "(9600 :: int) \<noteq> 0 \<and> (9600 :: int) \<le> 19200
   \<and> init 9600 8 1 (Some (25, 26)) None
     = Inr \<lparr> t1char = 1145, t35chars = 4010, ctrlPin = None \<rparr>
   \<and> (4010 :: int) = (3500000 * (8 + 1 + 2)) div 9600
   \<and> (115200 :: int) \<noteq> 0 \<and> (19200 :: int) < 115200
   \<and> init 115200 8 1 (Some (25, 26)) (Some 12)
     = Inr \<lparr> t1char = 95, t35chars = 1750, ctrlPin = Some 12 \<rparr>"
proof -
  have slow: "(9600 :: int) \<noteq> 0" and fast: "(115200 :: int) \<noteq> 0"
    by simp_all
  show ?thesis
    using init_t35chars [OF slow, of 8 1 "(25, 26)" None]
      init_t35chars [OF fast, of 8 1 "(25, 26)" "Some 12"]
    by simp
qed

subsection \<open>Sending\<close>

text \<open>
  What each collaborator call does to the trace, the clock and the wrap period of the
  world.
\<close>

lemma trace_emit: "trace (emit e w) = trace w @ [(now w, e)]"
  and now_emit: "now (emit e w) = now w"
  and latency_emit: "latency (emit e w) = latency w"
  and ticks_period_emit: "ticks_period (emit e w) = ticks_period w"
  by (simp_all add: emit_def)

lemma trace_pass: "trace (pass d w) = trace w"
  and ticks_period_pass: "ticks_period (pass d w) = ticks_period w"
  by (simp_all add: pass_def split: list.splits)

lemma now_pass: "now w + d \<le> now (pass d w)"
  by (simp add: pass_def split: list.splits)

lemma ceiling_us: "\<lceil>of_int n * US_TO_S * 1000000\<rceil> = n"
  by (simp add: US_TO_S_def)

lemma trace_sleep: "trace (sleep secs w) = trace w @ [(now w, Sleep secs)]"
  and ticks_period_sleep: "ticks_period (sleep secs w) = ticks_period w"
  by (simp_all add: sleep_def trace_pass trace_emit ticks_period_pass ticks_period_emit)

lemma now_sleep: "now w + max 0 \<lceil>secs * 1000000\<rceil> \<le> now (sleep secs w)"
  using now_pass [of "emit (Sleep secs) w" "max 0 \<lceil>secs * 1000000\<rceil>"]
  by (simp add: sleep_def now_emit)

lemma trace_writer_write: "trace (writer_write bs w) = trace w @ [(now w, UartWrite bs)]"
  and ticks_period_writer_write: "ticks_period (writer_write bs w) = ticks_period w"
  and now_writer_write: "now w \<le> now (writer_write bs w)"
  using now_pass [of "emit (UartWrite bs) w" 0]
  by (simp_all add: writer_write_def trace_pass trace_emit ticks_period_pass ticks_period_emit now_emit)

lemma trace_writer_drain: "trace (writer_drain w) = trace w @ [(now w, Drain)]"
  and ticks_period_writer_drain: "ticks_period (writer_drain w) = ticks_period w"
  and now_writer_drain: "now w \<le> now (writer_drain w)"
  using now_pass [of "emit Drain w" 0]
  by (simp_all add: writer_drain_def trace_pass trace_emit ticks_period_pass ticks_period_emit now_emit)

lemma trace_pin_set: "trace (pin_set v w) = trace w @ [(now w, PinSet v)]"
  and now_pin_set: "now (pin_set v w) = now w"
  and ticks_period_pin_set: "ticks_period (pin_set v w) = ticks_period w"
  by (simp_all add: pin_set_def trace_emit now_emit ticks_period_emit)

lemma whole_periods_mono:
  fixes a b :: int
  assumes "a \<le> b" and "0 < p"
  shows "a - a mod p \<le> b - b mod p"
proof -
  have "a div p \<le> b div p"
    using assms by (simp add: zdiv_mono1)
  then have "p * (a div p) \<le> p * (b div p)"
    using assms(2) by simp
  then show ?thesis
    by (simp add: minus_mod_eq_mult_div)
qed

lemma ticks_us_hold:
  assumes "now w \<le> now w'" and "ticks_period w' = ticks_period w"
  shows "now w + frame_us \<le> now w' + max 0 (ticks_us w + frame_us - ticks_us w')"
proof (cases "ticks_period w = 0")
  case True
  then show ?thesis
    using assms by (simp add: ticks_us_def)
next
  case False
  then have "now w - now w mod int (ticks_period w) \<le> now w' - now w' mod int (ticks_period w)"
    using assms(1) by (intro whole_periods_mono) simp_all
  then show ?thesis
    using False assms(2) by (simp add: ticks_us_def)
qed

text \<open>
  The reference frame of the Modbus documentation: reading one holding register at
  address 0 from unit 1 carries the CRC bytes 0x84 0x0A.
\<close>

lemma frame_example: "form_serial_pdu [3, 0, 0, 0, 1] 1 = [1, 3, 0, 0, 0, 1, 132, 10]"
  by code_simp

text \<open>
  C4. On every \<open>_send\<close> with a direction-control pin configured, the trace of the call
  is: the pin set to 1, the settling sleep of 1/1000 s, the write of the framed PDU, the
  drain, the hold sleep, the pin set to 0, in this order. So the pin is asserted before
  any byte is written, the write happens at least 1000 microseconds after the assertion,
  and the pin is deasserted no earlier than \<open>t1char\<close> times the number of bytes of the
  frame after the write (the transmission start at which \<open>send_start_time\<close> is read).
  This holds for every latency of the calls and whether or not the tick counter wraps,
  with \<open>asyncio.sleep\<close> suspending for at least the time asked.
\<close>

theorem send_ctrl_pin_timing:
  assumes "ctrlPin srv = Some pin"
  shows "\<exists>t_write t_drain t_hold t_off hold.
           trace (send srv modbus_pdu slave_addr w) =
             trace w @
               [(now w, PinSet 1), (now w, Sleep (1 / 1000)),
                (t_write, UartWrite (form_serial_pdu modbus_pdu slave_addr)),
                (t_drain, Drain), (t_hold, Sleep hold), (t_off, PinSet 0)]
         \<and> now w + 1000 \<le> t_write
         \<and> t_write + t1char srv * int (length (form_serial_pdu modbus_pdu slave_addr)) \<le> t_off"
proof -
  define serial_pdu where "serial_pdu = form_serial_pdu modbus_pdu slave_addr"
  define w1 where "w1 = pin_set 1 w"
  define w2 where "w2 = sleep (1 / 1000) w1"
  define w3 where "w3 = writer_write serial_pdu w2"
  define w4 where "w4 = writer_drain w3"
  define frame_us where "frame_us = t1char srv * int (length serial_pdu)"
  define td where "td = ticks_us w2 + frame_us - ticks_us w4"
  define w5 where "w5 = sleep (of_int td * US_TO_S) w4"
  have run: "send srv modbus_pdu slave_addr w = pin_set 0 w5"
    using assms
    by (simp add: send_def Let_def serial_pdu_def w1_def w2_def w3_def w4_def frame_us_def
        td_def w5_def)
  have tr: "trace (pin_set 0 w5) =
              trace w @ [(now w, PinSet 1), (now w, Sleep (1 / 1000)),
                         (now w2, UartWrite serial_pdu), (now w3, Drain),
                         (now w4, Sleep (of_int td * US_TO_S)), (now w5, PinSet 0)]"
    by (simp add: w5_def w4_def w3_def w2_def w1_def trace_pin_set trace_sleep
        trace_writer_write trace_writer_drain now_pin_set)
  have settle: "now w + 1000 \<le> now w2"
    using now_sleep [of w1 "1 / 1000"] by (simp add: w2_def w1_def now_pin_set)
  have "now w2 \<le> now w3" and "now w3 \<le> now w4"
    by (simp_all add: w3_def w4_def now_writer_write now_writer_drain)
  then have later: "now w2 \<le> now w4"
    by simp
  have same: "ticks_period w4 = ticks_period w2"
    by (simp add: w4_def w3_def ticks_period_writer_write ticks_period_writer_drain)
  have "now w4 + max 0 td \<le> now w5"
    using now_sleep [of w4 "of_int td * US_TO_S"] by (simp add: w5_def ceiling_us)
  moreover have "now w2 + frame_us \<le> now w4 + max 0 td"
    unfolding td_def by (rule ticks_us_hold [OF later same])
  ultimately have hold: "now w2 + frame_us \<le> now w5"
    by simp
  show ?thesis
    unfolding run tr using settle hold
    by (simp add: serial_pdu_def frame_us_def)
qed

theorem send_ctrl_pin_timing_witness:
  "ctrlPin \<lparr> t1char = 1145, t35chars = 4010, ctrlPin = Some 12 \<rparr> = Some 12
   \<and> trace (send \<lparr> t1char = 1145, t35chars = 4010, ctrlPin = Some 12 \<rparr> [3, 0, 0, 0, 1] 1
              \<lparr> now = 5, ticks_period = 1010, latency = [3, 4, 5], trace = [] \<rparr>)
     = [(5, PinSet 1), (5, Sleep (1 / 1000)),
        (1008, UartWrite [1, 3, 0, 0, 0, 1, 132, 10]), (1012, Drain),
        (1017, Sleep (10161 / 1000000)), (11178, PinSet 0)]
   \<and> (5::int) + 1000 \<le> 1008
   \<and> (1008::int) + 1145 * int (length [1, 3, 0, 0, 0, 1, 132, 10 :: byte]) \<le> 11178"
proof -
  have h: "ctrlPin \<lparr> t1char = 1145, t35chars = 4010, ctrlPin = Some 12 \<rparr> = Some 12"
    by simp
  show ?thesis
    using send_ctrl_pin_timing [OF h, of "[3, 0, 0, 0, 1]" 1
        "\<lparr> now = 5, ticks_period = 1010, latency = [3, 4, 5], trace = [] \<rparr>"]
    by (simp add: send_def frame_example writer_write_def writer_drain_def emit_def pass_def
        pin_set_def sleep_def ticks_us_def US_TO_S_def)
qed

text \<open>
  C10. With no direction-control pin (\<open>ctrlPin\<close> is \<open>None\<close>), the only effects of
  \<open>_send\<close> are the write of the framed PDU to the UART and the drain: the trace gains
  these two events and nothing else, so no pin is touched and no sleep is made.
\<close>

theorem send_without_ctrl_pin:
  assumes "ctrlPin srv = None"
  shows "\<exists>t_drain. trace (send srv modbus_pdu slave_addr w) =
           trace w @ [(now w, UartWrite (form_serial_pdu modbus_pdu slave_addr)),
                      (t_drain, Drain)]"
  using assms
  by (simp add: send_def Let_def trace_writer_write trace_writer_drain)

theorem send_without_ctrl_pin_witness:
  "ctrlPin \<lparr> t1char = 1145, t35chars = 4010, ctrlPin = None \<rparr> = None
   \<and> trace (send \<lparr> t1char = 1145, t35chars = 4010, ctrlPin = None \<rparr> [3, 0, 0, 0, 1] 1
              \<lparr> now = 5, ticks_period = 0, latency = [3, 4, 5], trace = [] \<rparr>)
     = [(5, UartWrite [1, 3, 0, 0, 0, 1, 132, 10]), (8, Drain)]"
proof -
  have h: "ctrlPin \<lparr> t1char = 1145, t35chars = 4010, ctrlPin = None \<rparr> = None"
    by simp
  show ?thesis
    using send_without_ctrl_pin [OF h, of "[3, 0, 0, 0, 1]" 1
        "\<lparr> now = 5, ticks_period = 0, latency = [3, 4, 5], trace = [] \<rparr>"]
    by (simp add: send_def frame_example writer_write_def writer_drain_def emit_def pass_def)
qed

subsection \<open>Responder-mode reception\<close>

text \<open>
  The loop of \<open>_uart_read\<close>, one iteration at a time: on a silent line the iteration
  does not return; otherwise it stops with the chunk read or goes on with the rest of the
  line.
\<close>

lemma uart_read_loop_silent: "uart_read_loop ex wp (i # is) response [] = None"
  by simp

lemma uart_read_loop_step:
  "uart_read_loop ex wp (i # is) response ((idle, data) # rest) =
     (if ex (response @ data) then Some (response @ data, [UartRead data])
      else map_option (\<lambda>(r, tr). (r, UartRead data # Sleep wp # tr))
             (uart_read_loop ex wp is (response @ data) rest))"
  by (simp add: Let_def split: option.splits)

lemma uart_read_loop_cases:
  assumes "uart_read_loop ex wp (i # is) response rx = Some (r, tr)"
  obtains (stop) idle data rest where "rx = (idle, data) # rest" and "ex (response @ data)"
      and "r = response @ data" and "tr = [UartRead data]"
  | (go) idle data rest tr' where "rx = (idle, data) # rest" and "\<not> ex (response @ data)"
      and "uart_read_loop ex wp is (response @ data) rest = Some (r, tr')"
      and "tr = UartRead data # Sleep wp # tr'"
proof (cases rx)
  case Nil
  then show ?thesis
    using assms by simp
next
  case (Cons a rest)
  obtain idle data where a: "a = (idle, data)"
    by (cases a)
  have rx: "rx = (idle, data) # rest"
    unfolding Cons a ..
  show ?thesis
  proof (cases "ex (response @ data)")
    case True
    have "Some (r, tr) = uart_read_loop ex wp (i # is) response ((idle, data) # rest)"
      using assms unfolding rx by (rule sym)
    also have "\<dots> = Some (response @ data, [UartRead data])"
      unfolding uart_read_loop_step using True by simp
    finally have "Some (r, tr) = Some (response @ data, [UartRead data])" .
    then have "r = response @ data" and "tr = [UartRead data]"
      by simp_all
    then show ?thesis
      by (rule stop [OF rx True])
  next
    case False
    let ?rest = "uart_read_loop ex wp is (response @ data) rest"
    have "Some (r, tr) = uart_read_loop ex wp (i # is) response ((idle, data) # rest)"
      using assms unfolding rx by (rule sym)
    also have "\<dots> = map_option (\<lambda>(r, tr). (r, UartRead data # Sleep wp # tr)) ?rest"
      unfolding uart_read_loop_step using False by simp
    finally have run: "Some (r, tr)
            = map_option (\<lambda>(r, tr). (r, UartRead data # Sleep wp # tr)) ?rest" .
    show ?thesis
    proof (cases ?rest)
      case None
      then show ?thesis
        using run by simp
    next
      case (Some p)
      obtain r' tr' where p: "p = (r', tr')"
        by (cases p)
      have "r = r'" and tr: "tr = UartRead data # Sleep wp # tr'"
        using run unfolding Some p by simp_all
      then have "?rest = Some (r, tr')"
        using Some p by simp
      then show ?thesis
        using tr by (rule go [OF rx False])
    qed
  qed
qed

lemma uart_read_loop_reads_bound:
  assumes "uart_read_loop ex wp is response rx = Some (r, tr)"
  shows "length (reads_of tr) \<le> length is"
  using assms
proof (induction "is" arbitrary: response rx tr)
  case Nil
  then show ?case by simp
next
  case (Cons i "is")
  from Cons.prems show ?case
  proof (cases rule: uart_read_loop_cases)
    case (stop idle data rest)
    then show ?thesis by simp
  next
    case (go idle data rest tr')
    then show ?thesis
      using Cons.IH [OF go(3)] by simp
  qed
qed

lemma uart_read_loop_reads_pos:
  assumes "uart_read_loop ex wp is response rx = Some (r, tr)" and "is \<noteq> []"
  shows "reads_of tr \<noteq> []"
proof -
  obtain i is' where "is": "is = i # is'"
    using assms(2) by (cases "is") auto
  from assms(1) [unfolded "is"] show ?thesis
    by (cases rule: uart_read_loop_cases) simp_all
qed

lemma uart_read_loop_reads_chunks:
  assumes "uart_read_loop ex wp is response rx = Some (r, tr)"
  shows "length (reads_of tr) \<le> length rx
         \<and> reads_of tr = map snd (take (length (reads_of tr)) rx)"
  using assms
proof (induction "is" arbitrary: response rx tr)
  case Nil
  then show ?case by simp
next
  case (Cons i "is")
  from Cons.prems show ?case
  proof (cases rule: uart_read_loop_cases)
    case (stop idle data rest)
    then show ?thesis by simp
  next
    case (go idle data rest tr')
    have "length (reads_of tr') \<le> length rest"
      and "reads_of tr' = map snd (take (length (reads_of tr')) rest)"
      using Cons.IH [OF go(3)] by simp_all
    then have "length (reads_of tr') \<le> length rest"
      and "data # reads_of tr' = data # map snd (take (length (reads_of tr')) rest)"
      by simp_all
    then show ?thesis
      unfolding go(1) go(4) by simp
  qed
qed

lemma uart_read_loop_response:
  assumes "uart_read_loop ex wp is response rx = Some (r, tr)"
  shows "r = response @ concat (reads_of tr)"
  using assms
proof (induction "is" arbitrary: response rx tr)
  case Nil
  then show ?case by simp
next
  case (Cons i "is")
  from Cons.prems show ?case
  proof (cases rule: uart_read_loop_cases)
    case (stop idle data rest)
    then show ?thesis by simp
  next
    case (go idle data rest tr')
    then show ?thesis
      using Cons.IH [OF go(3)] by simp
  qed
qed

lemma uart_read_loop_exit:
  assumes "uart_read_loop ex wp is response rx = Some (r, tr)" and "is \<noteq> []"
  shows "ex r \<or> length (reads_of tr) = length is"
  using assms
proof (induction "is" arbitrary: response rx tr)
  case Nil
  then show ?case by simp
next
  case (Cons i "is")
  from Cons.prems(1) show ?case
  proof (cases rule: uart_read_loop_cases)
    case (stop idle data rest)
    then show ?thesis by simp
  next
    case (go idle data rest tr')
    show ?thesis
    proof (cases "is = []")
      case True
      then show ?thesis
        using go by simp
    next
      case False
      then show ?thesis
        using Cons.IH [OF go(3) False] go(4) by auto
    qed
  qed
qed

lemma uart_read_loop_no_early_exit:
  assumes "uart_read_loop ex wp is response rx = Some (r, tr)"
    and "0 < k" and "k < length (reads_of tr)"
  shows "\<not> ex (response @ concat (take k (reads_of tr)))"
  using assms
proof (induction "is" arbitrary: response rx tr k)
  case Nil
  then show ?case by simp
next
  case (Cons i "is")
  from Cons.prems(1) show ?case
  proof (cases rule: uart_read_loop_cases)
    case (stop idle data rest)
    then show ?thesis
      using Cons.prems(2,3) by simp
  next
    case (go idle data rest tr')
    obtain k' where k: "k = Suc k'"
      using Cons.prems(2) by (cases k) auto
    show ?thesis
    proof (cases "k' = 0")
      case True
      then show ?thesis
        using go k by simp
    next
      case False
      have "k' < length (reads_of tr')"
        using Cons.prems(3) k go(4) by simp
      then have "\<not> ex ((response @ data) @ concat (take k' (reads_of tr')))"
        using False by (intro Cons.IH [OF go(3)]) simp_all
      then show ?thesis
        using k go(4) by simp
    qed
  qed
qed

lemma paced_Cons: "cs \<noteq> [] \<Longrightarrow> paced wp (c # cs) = UartRead c # Sleep wp # paced wp cs"
  by (cases cs) simp_all

lemma uart_read_loop_paced:
  assumes "uart_read_loop ex wp is response rx = Some (r, tr)" and "is \<noteq> []"
  shows "tr = paced wp (reads_of tr) @ (if ex r then [] else [Sleep wp])"
  using assms
proof (induction "is" arbitrary: response rx tr)
  case Nil
  then show ?case by simp
next
  case (Cons i "is")
  from Cons.prems(1) show ?case
  proof (cases rule: uart_read_loop_cases)
    case (stop idle data rest)
    then show ?thesis by simp
  next
    case (go idle data rest tr')
    show ?thesis
    proof (cases "is = []")
      case True
      then have "tr' = []" and "r = response @ data"
        using go(3) by simp_all
      then show ?thesis
        using go(2,4) by simp
    next
      case False
      have ne: "reads_of tr' \<noteq> []"
        by (rule uart_read_loop_reads_pos [OF go(3) False])
      have "tr = UartRead data # Sleep wp # tr'"
        by (rule go(4))
      also have "tr' = paced wp (reads_of tr') @ (if ex r then [] else [Sleep wp])"
        by (rule Cons.IH [OF go(3) False])
      also have "UartRead data # Sleep wp # (paced wp (reads_of tr')
                   @ (if ex r then [] else [Sleep wp]))
                 = paced wp (data # reads_of tr') @ (if ex r then [] else [Sleep wp])"
        by (simp add: paced_Cons [OF ne])
      also have "data # reads_of tr' = reads_of tr"
        unfolding go(4) by simp
      finally show ?thesis .
    qed
  qed
qed

text \<open>
  When the loop neither recognises a frame nor gets a chunk for each of its iterations,
  one of its reads is left waiting on the silent line; a line with a chunk for every
  iteration lets it return.
\<close>

lemma uart_read_loop_hangs:
  assumes "length rx < length is"
    and "\<forall>k. 0 < k \<and> k \<le> length rx \<longrightarrow> \<not> ex (response @ concat (map snd (take k rx)))"
  shows "uart_read_loop ex wp is response rx = None"
  using assms
proof (induction "is" arbitrary: response rx)
  case Nil
  then show ?case by simp
next
  case (Cons i "is")
  show ?case
  proof (cases rx)
    case Nil
    then show ?thesis by simp
  next
    case (Cons a rest)
    obtain idle data where a: "a = (idle, data)"
      by (cases a)
    have nex: "\<not> ex (response @ data)"
      using Cons.prems(2) [rule_format, of 1] Cons a by simp
    have "\<forall>k. 0 < k \<and> k \<le> length rest
            \<longrightarrow> \<not> ex ((response @ data) @ concat (map snd (take k rest)))"
    proof (intro allI impI)
      fix k assume "0 < k \<and> k \<le> length rest"
      then show "\<not> ex ((response @ data) @ concat (map snd (take k rest)))"
        using Cons.prems(2) [rule_format, of "Suc k"] Cons a by simp
    qed
    moreover have "length rest < length is"
      using Cons.prems(1) Cons by simp
    ultimately have "uart_read_loop ex wp is (response @ data) rest = None"
      by (rule Cons.IH [rotated])
    then show ?thesis
      unfolding Cons a using nex
      by (simp add: uart_read_loop_step del: uart_read_loop.simps(2))
  qed
qed

lemma uart_read_loop_full:
  assumes "length is \<le> length rx"
  shows "\<exists>r tr. uart_read_loop ex wp is response rx = Some (r, tr)"
  using assms
proof (induction "is" arbitrary: response rx)
  case Nil
  then show ?case by simp
next
  case (Cons i "is")
  then obtain a rest where rx: "rx = a # rest" and "length is \<le> length rest"
    by (cases rx) auto
  then obtain r tr where "uart_read_loop ex wp is (response @ snd a) rest = Some (r, tr)"
    using Cons.IH by blast
  then show ?case
    unfolding rx by (cases a) (simp add: uart_read_loop_step del: uart_read_loop.simps(2))
qed

text \<open>
  What \<open>_uart_read\<close> has done when it returns: at least one and at most 39 reads
  (\<open>range(1, 40)\<close>), which returned the first chunks of the line; the response is all
  the bytes read; the loop stopped at the first read after which \<open>_exit_read\<close>
  recognised the response, or after the 39th; the reads are separated by sleeps of the
  silence interval, with one more sleep when the loop ran out unrecognised.
\<close>

lemma uart_read_returned:
  assumes "uart_read srv exit_read rx = Some (response, tr)"
  shows "1 \<le> length (reads_of tr)"
    and "length (reads_of tr) \<le> 39"
    and "reads_of tr = map snd (take (length (reads_of tr)) rx)"
    and "response = concat (reads_of tr)"
    and "exit_read response \<or> length (reads_of tr) = 39"
    and "0 < k \<Longrightarrow> k < length (reads_of tr)
           \<Longrightarrow> \<not> exit_read (concat (take k (reads_of tr)))"
    and "tr = paced (of_int (t35chars srv) / 1000000) (reads_of tr)
              @ (if exit_read response then []
                 else [Sleep (of_int (t35chars srv) / 1000000)])"
proof -
  define wp where "wp = of_int (t35chars srv) * US_TO_S"
  have wp: "of_int (t35chars srv) / 1000000 = wp"
    by (simp add: wp_def US_TO_S_def)
  have run: "uart_read_loop exit_read wp [1..<40] [] rx = Some (response, tr)"
    using assms by (simp add: uart_read_def wp_def)
  have ne: "[1..<40] \<noteq> []" and len: "length [1..<40] = 39"
    by simp_all
  have "reads_of tr \<noteq> []"
    by (rule uart_read_loop_reads_pos [OF run ne])
  then show "1 \<le> length (reads_of tr)"
    by (cases "reads_of tr") simp_all
  show "length (reads_of tr) \<le> 39"
    using uart_read_loop_reads_bound [OF run] unfolding len .
  show "reads_of tr = map snd (take (length (reads_of tr)) rx)"
    using uart_read_loop_reads_chunks [OF run] by (rule conjunct2)
  show "response = concat (reads_of tr)"
    using uart_read_loop_response [OF run] by simp
  show "exit_read response \<or> length (reads_of tr) = 39"
    using uart_read_loop_exit [OF run ne] unfolding len .
  show "\<not> exit_read (concat (take k (reads_of tr)))"
    if "0 < k" and "k < length (reads_of tr)"
    using uart_read_loop_no_early_exit [OF run that] by simp
  show "tr = paced (of_int (t35chars srv) / 1000000) (reads_of tr)
              @ (if exit_read response then []
                 else [Sleep (of_int (t35chars srv) / 1000000)])"
    unfolding wp by (rule uart_read_loop_paced [OF run ne])
qed

lemma uart_read_hangs:
  assumes "length rx < 39"
    and "\<forall>k. 0 < k \<and> k \<le> length rx \<longrightarrow> \<not> exit_read (concat (map snd (take k rx)))"
  shows "uart_read srv exit_read rx = None"
proof -
  have "length rx < length [1..<40]"
    using assms(1) by simp
  moreover have "\<forall>k. 0 < k \<and> k \<le> length rx
                   \<longrightarrow> \<not> exit_read ([] @ concat (map snd (take k rx)))"
    using assms(2) by simp
  ultimately have "uart_read_loop exit_read (of_int (t35chars srv) * US_TO_S) [1..<40] [] rx = None"
    by (rule uart_read_loop_hangs)
  then show ?thesis
    by (simp add: uart_read_def)
qed

lemma uart_read_busy_line:
  assumes "39 \<le> length rx"
  shows "\<exists>response tr. uart_read srv exit_read rx = Some (response, tr)"
proof -
  have "length [1..<40] \<le> length rx"
    using assms by simp
  then show ?thesis
    unfolding uart_read_def Let_def by (rule uart_read_loop_full)
qed

text \<open>
  C7. \<open>_uart_read\<close> does not always terminate. Its read has no timeout, so on a line
  that is silent when it is called the first read never returns, whatever \<open>_exit_read\<close>
  is, and on a line that falls silent after part of a frame (here three bytes, with
  frames recognised from eight bytes on) the second read never returns: in both cases
  \<open>_uart_read\<close> returns nothing, neither after 39 attempts nor ever, and the bytes
  accumulated so far are not handed back.
\<close>

theorem uart_read_silent_line:
  "uart_read srv exit_read [] = None
   \<and> uart_read \<lparr> t1char = 1145, t35chars = 4010, ctrlPin = None \<rparr> (\<lambda>r. 8 \<le> length r)
       [(0, [1, 3, 2])] = None"
  by (simp add: uart_read_def Let_def upt_conv_Cons)

subsection \<open>Host-mode reception\<close>

text \<open>
  The loop of \<open>_uart_read_frame\<close>: the bytes it returns extend \<open>received_bytes\<close>, and
  its reads are one under the current timeout followed by reads under the frame timeout,
  each chunk taken exactly when it came before its timeout ran out.
\<close>

lemma read_frame_loop_step:
  "read_frame_loop cur ft ((idle, data) # rest) received =
     (if idle < cur
      then (fst (read_frame_loop ft ft rest (received @ data)),
            WaitForRead cur (Some data) # snd (read_frame_loop ft ft rest (received @ data)))
      else (received, [WaitForRead cur None]))"
  by (simp split: prod.splits)

lemma read_frame_loop_prefix:
  "\<exists>tail. fst (read_frame_loop cur ft arrivals received) = received @ tail"
proof (induction arrivals arbitrary: cur received)
  case Nil
  then show ?case by simp
next
  case (Cons a arrivals)
  obtain idle data where a: "a = (idle, data)"
    by (cases a)
  obtain tail where "fst (read_frame_loop ft ft arrivals (received @ data)) = (received @ data) @ tail"
    using Cons.IH by blast
  then show ?case
    unfolding a by (simp add: read_frame_loop_step del: read_frame_loop.simps(2))
qed

lemma read_frame_loop_waits:
  "\<exists>k\<le>length arrivals.
      fst (read_frame_loop cur ft arrivals received)
        = received @ concat (map snd (take k arrivals))
    \<and> wait_timeouts (snd (read_frame_loop cur ft arrivals received)) = cur # replicate k ft
    \<and> wait_results (snd (read_frame_loop cur ft arrivals received))
        = map (Some \<circ> snd) (take k arrivals) @ [None]
    \<and> (\<forall>i<k. fst (arrivals ! i) < (if i = 0 then cur else ft))
    \<and> (k < length arrivals \<longrightarrow> (if k = 0 then cur else ft) \<le> fst (arrivals ! k))"
proof (induction arrivals arbitrary: cur received)
  case Nil
  then show ?case by simp
next
  case (Cons a arrivals)
  obtain idle data where a: "a = (idle, data)"
    by (cases a)
  show ?case
  proof (cases "idle < cur")
    case False
    then show ?thesis
      unfolding a
      by (intro exI [of _ 0]) (simp add: read_frame_loop_step del: read_frame_loop.simps(2))
  next
    case True
    let ?rest = "read_frame_loop ft ft arrivals (received @ data)"
    obtain k where k: "k \<le> length arrivals"
      and bytes: "fst ?rest = (received @ data) @ concat (map snd (take k arrivals))"
      and waits: "wait_timeouts (snd ?rest) = ft # replicate k ft"
      and results: "wait_results (snd ?rest) = map (Some \<circ> snd) (take k arrivals) @ [None]"
      and inside: "\<forall>i<k. fst (arrivals ! i) < (if i = 0 then ft else ft)"
      and outside: "k < length arrivals \<longrightarrow> (if k = 0 then ft else ft) \<le> fst (arrivals ! k)"
      using Cons.IH [of ft "received @ data"] by blast
    have inside': "\<forall>i<Suc k. fst ((a # arrivals) ! i) < (if i = 0 then cur else ft)"
    proof (intro allI impI)
      fix i assume "i < Suc k"
      then show "fst ((a # arrivals) ! i) < (if i = 0 then cur else ft)"
        using True inside a by (cases i) auto
    qed
    show ?thesis
      unfolding a
      using True k bytes waits results inside' outside
      by (intro exI [of _ "Suc k"])
         (simp add: read_frame_loop_step a del: read_frame_loop.simps(2))
  qed
qed

lemma uart_read_frame_loop:
  "uart_read_frame srv timeout arrivals =
     read_frame_loop
       (of_int (case timeout of None \<Rightarrow> 2 * t35chars srv
                | Some t \<Rightarrow> if t = 0 then 2 * t35chars srv else t) / 1000000)
       (of_int (t35chars srv) / 1000000) arrivals []"
  by (simp add: uart_read_frame_def US_TO_S_def Let_def)

text \<open>
  C1. Let the first burst of a response arrive before the first read of
  \<open>_uart_read_frame\<close> times out. If the second burst follows after an idle gap shorter than
  the silence interval (\<open>t35chars\<close> microseconds), the returned bytes are both bursts as
  one frame (and start with both bursts whatever arrives later); if the gap is longer than
  the silence interval, the returned bytes are the first burst only, whatever arrives
  later.
\<close>

theorem uart_read_frame_two_bursts:
  assumes "idle < of_int (case timeout of None \<Rightarrow> 2 * t35chars srv
                          | Some t \<Rightarrow> if t = 0 then 2 * t35chars srv else t) / 1000000"
  shows "(gap < of_int (t35chars srv) / 1000000 \<longrightarrow>
            fst (uart_read_frame srv timeout [(idle, burst1), (gap, burst2)]) = burst1 @ burst2
          \<and> (\<exists>tail. fst (uart_read_frame srv timeout ((idle, burst1) # (gap, burst2) # later))
                      = burst1 @ burst2 @ tail))
       \<and> (of_int (t35chars srv) / 1000000 < gap \<longrightarrow>
            fst (uart_read_frame srv timeout ((idle, burst1) # (gap, burst2) # later)) = burst1)"
proof (intro conjI impI)
  assume "gap < of_int (t35chars srv) / 1000000"
  then show "fst (uart_read_frame srv timeout [(idle, burst1), (gap, burst2)]) = burst1 @ burst2"
    using assms unfolding uart_read_frame_loop by simp
next
  assume near: "gap < of_int (t35chars srv) / 1000000"
  obtain tail where "fst (read_frame_loop (of_int (t35chars srv) / 1000000)
                       (of_int (t35chars srv) / 1000000) later (burst1 @ burst2))
                     = (burst1 @ burst2) @ tail"
    using read_frame_loop_prefix by blast
  then show "\<exists>tail. fst (uart_read_frame srv timeout ((idle, burst1) # (gap, burst2) # later))
                      = burst1 @ burst2 @ tail"
    using assms near unfolding uart_read_frame_loop
    by (simp add: read_frame_loop_step del: read_frame_loop.simps(2))
next
  assume "of_int (t35chars srv) / 1000000 < gap"
  then show "fst (uart_read_frame srv timeout ((idle, burst1) # (gap, burst2) # later)) = burst1"
    using assms unfolding uart_read_frame_loop
    by (simp add: read_frame_loop_step del: read_frame_loop.simps(2))
qed

theorem uart_read_frame_two_bursts_witness:
  "(0::rat) < of_int (case Some 1000000 of None \<Rightarrow> 2 * 4010
                          | Some t \<Rightarrow> if t = 0 then 2 * 4010 else t) / 1000000
   \<and> (1 / 1000 :: rat) < of_int 4010 / 1000000
   \<and> fst (uart_read_frame \<lparr> t1char = 1145, t35chars = 4010, ctrlPin = None \<rparr> (Some 1000000)
           [(0, [1, 3]), (1 / 1000, [2, 0])]) = [1, 3, 2, 0]
   \<and> (of_int 4010 / 1000000 :: rat) < 1 / 100
   \<and> fst (uart_read_frame \<lparr> t1char = 1145, t35chars = 4010, ctrlPin = None \<rparr> (Some 1000000)
           [(0, [1, 3]), (1 / 100, [2, 0])]) = [1, 3]"
proof -
  have h: "(0::rat) < of_int (case Some 1000000 of
               None \<Rightarrow> 2 * t35chars \<lparr> t1char = 1145, t35chars = 4010, ctrlPin = None \<rparr>
             | Some t \<Rightarrow> if t = 0 then 2 * t35chars \<lparr> t1char = 1145, t35chars = 4010, ctrlPin = None \<rparr>
                         else t) / 1000000"
    by simp
  show ?thesis
    using uart_read_frame_two_bursts [OF h, of "1 / 1000" "[1, 3]" "[2, 0]" "[]"]
      uart_read_frame_two_bursts [OF h, of "1 / 100" "[1, 3]" "[2, 0]" "[]"]
    by simp
qed

text \<open>
  C2, as stated, fails: with \<open>t35chars = 4010\<close> a second chunk that arrives 6000
  microseconds after the first, within twice the silence interval (8020 microseconds), is
  not waited for. The frame is declared complete with the first chunk alone, after a wait
  of 4010 microseconds.
\<close>

theorem uart_read_frame_double_silence_counterexample:
  "(3 / 500 :: rat)
     < of_int (2 * t35chars \<lparr> t1char = 1145, t35chars = 4010, ctrlPin = None \<rparr>) / 1000000
   \<and> fst (uart_read_frame \<lparr> t1char = 1145, t35chars = 4010, ctrlPin = None \<rparr>
            (Some 1000000) [(0, [1, 3]), (3 / 500, [2, 0])]) = [1, 3]
   \<and> fst (uart_read_frame \<lparr> t1char = 1145, t35chars = 4010, ctrlPin = None \<rparr>
            (Some 1000000) [(0, [1, 3]), (3 / 500, [2, 0])]) \<noteq> [1, 3] @ [2, 0]
   \<and> wait_timeouts (snd (uart_read_frame \<lparr> t1char = 1145, t35chars = 4010, ctrlPin = None \<rparr>
            (Some 1000000) [(0, [1, 3]), (3 / 500, [2, 0])]))
       = [1, of_int (t35chars \<lparr> t1char = 1145, t35chars = 4010, ctrlPin = None \<rparr>) / 1000000]
   \<and> (of_int (t35chars \<lparr> t1char = 1145, t35chars = 4010, ctrlPin = None \<rparr>) / 1000000 :: rat)
       \<noteq> of_int (2 * t35chars \<lparr> t1char = 1145, t35chars = 4010, ctrlPin = None \<rparr>) / 1000000"
  by (simp add: uart_read_frame_def US_TO_S_def Let_def)

text \<open>
  C2, amended. In \<open>_uart_read_frame\<close> the first read waits up to the full timeout of
  the caller, taken in microseconds (twice \<open>t35chars\<close> when the timeout is \<open>None\<close> or 0),
  and every read after a received chunk waits the silence interval, \<open>t35chars\<close>
  microseconds, once: the chunks received are exactly those that came before their wait
  ran out, the last read timed out, and the frame is the chunks received.
\<close>

theorem uart_read_frame_waits:
  "\<exists>k\<le>length arrivals.
      fst (uart_read_frame srv timeout arrivals) = concat (map snd (take k arrivals))
    \<and> wait_timeouts (snd (uart_read_frame srv timeout arrivals))
        = of_int (case timeout of None \<Rightarrow> 2 * t35chars srv
                  | Some t \<Rightarrow> if t = 0 then 2 * t35chars srv else t) / 1000000
          # replicate k (of_int (t35chars srv) / 1000000)
    \<and> wait_results (snd (uart_read_frame srv timeout arrivals))
        = map (Some \<circ> snd) (take k arrivals) @ [None]
    \<and> (\<forall>i<k. fst (arrivals ! i)
              < (if i = 0
                 then of_int (case timeout of None \<Rightarrow> 2 * t35chars srv
                              | Some t \<Rightarrow> if t = 0 then 2 * t35chars srv else t) / 1000000
                 else of_int (t35chars srv) / 1000000))
    \<and> (k < length arrivals \<longrightarrow>
          (if k = 0
           then of_int (case timeout of None \<Rightarrow> 2 * t35chars srv
                        | Some t \<Rightarrow> if t = 0 then 2 * t35chars srv else t) / 1000000
           else of_int (t35chars srv) / 1000000) \<le> fst (arrivals ! k))"
  unfolding uart_read_frame_loop
  using read_frame_loop_waits [of arrivals _ _ "[]"] by simp

theorem uart_read_frame_waits_witness:
  "uart_read_frame \<lparr> t1char = 1145, t35chars = 4010, ctrlPin = None \<rparr> (Some 1000000)
        [(0, [1, 3]), (1 / 1000, [2, 0]), (3 / 500, [7])]
      = ([1, 3, 2, 0], [WaitForRead 1 (Some [1, 3]), WaitForRead (401 / 100000) (Some [2, 0]),
                        WaitForRead (401 / 100000) None])
   \<and> (0::rat) < 1 \<and> (1 / 1000 :: rat) < 401 / 100000 \<and> (401 / 100000 :: rat) \<le> 3 / 500"
proof -
  have run: "uart_read_frame \<lparr> t1char = 1145, t35chars = 4010, ctrlPin = None \<rparr> (Some 1000000)
        [(0, [1, 3]), (1 / 1000, [2, 0]), (3 / 500, [7])]
      = ([1, 3, 2, 0], [WaitForRead 1 (Some [1, 3]), WaitForRead (401 / 100000) (Some [2, 0]),
                        WaitForRead (401 / 100000) None])"
    by (simp add: uart_read_frame_def US_TO_S_def Let_def)
  show ?thesis
    using uart_read_frame_waits [of "[(0, [1, 3]), (1 / 1000, [2, 0]), (3 / 500, [7])]"
        "\<lparr> t1char = 1145, t35chars = 4010, ctrlPin = None \<rparr>" "Some 1000000"]
    unfolding run by simp
qed

subsection \<open>Receiving a request\<close>

lemma snd_read_frame_loop_first:
  "\<exists>got more. snd (read_frame_loop cur ft arrivals received) = WaitForRead cur got # more"
proof (cases arrivals)
  case Nil
  then show ?thesis by simp
next
  case (Cons a rest)
  then show ?thesis
    by (cases a) (simp add: read_frame_loop_step del: read_frame_loop.simps(2))
qed

lemma parse_request_nonempty: "parse_request req unit_addr_list = Some data \<Longrightarrow> req \<noteq> []"
  by (auto simp: parse_request_def)

lemma get_request_reads:
  "\<exists>result w'. get_request srv new_request unit_addr_list timeout arrivals w
                 = Inr (result, snd (uart_read_frame srv timeout arrivals), w')"
proof -
  obtain req reads where frame: "uart_read_frame srv timeout arrivals = (req, reads)"
    by (cases "uart_read_frame srv timeout arrivals")
  show ?thesis
  proof (cases "parse_request req unit_addr_list")
    case None
    then show ?thesis
      by (simp add: get_request_def frame)
  next
    case (Some data)
    then obtain slave_addr rest where "req = slave_addr # rest"
      using parse_request_nonempty [OF Some] by (cases req) auto
    then show ?thesis
      using Some by (auto simp: get_request_def frame split: sum.splits)
  qed
qed

text \<open>
  C9. If \<open>_uart_read_frame\<close> is called with a timeout of \<open>None\<close> or 0, its first read
  waits exactly \<open>2 * t35chars\<close> microseconds, that is \<open>2 * t35chars / 1_000_000\<close> seconds
  (the comment beside the assignment says milliseconds); \<open>get_request\<close> hands its timeout
  on, so its first read waits the same.
\<close>

theorem uart_read_frame_default_timeout:
  assumes "timeout = None \<or> timeout = Some 0"
  shows "(\<exists>got more. snd (uart_read_frame srv timeout arrivals)
                       = WaitForRead (of_int (2 * t35chars srv) / 1000000) got # more)
       \<and> (\<exists>result got more w'.
            get_request srv new_request unit_addr_list timeout arrivals w
              = Inr (result, WaitForRead (of_int (2 * t35chars srv) / 1000000) got # more, w'))"
proof -
  have loop: "uart_read_frame srv timeout arrivals =
          read_frame_loop (of_int (2 * t35chars srv) / 1000000)
            (of_int (t35chars srv) / 1000000) arrivals []"
    using assms unfolding uart_read_frame_loop by auto
  obtain got more where first:
    "snd (uart_read_frame srv timeout arrivals)
       = WaitForRead (of_int (2 * t35chars srv) / 1000000) got # more"
    unfolding loop using snd_read_frame_loop_first by blast
  obtain result w' where
    "get_request srv new_request unit_addr_list timeout arrivals w
       = Inr (result, snd (uart_read_frame srv timeout arrivals), w')"
    using get_request_reads by blast
  then show ?thesis
    using first by auto
qed

theorem uart_read_frame_default_timeout_witness:
  "(None = (None :: int option) \<or> None = Some (0::int))
   \<and> snd (uart_read_frame \<lparr> t1char = 1145, t35chars = 4010, ctrlPin = None \<rparr> None
           [(1 / 200, [1, 3])])
     = [WaitForRead (of_int (2 * 4010) / 1000000) (Some [1, 3]), WaitForRead (401 / 100000) None]
   \<and> snd (uart_read_frame \<lparr> t1char = 1145, t35chars = 4010, ctrlPin = None \<rparr> (Some 0) [])
     = [WaitForRead (of_int (2 * 4010) / 1000000) None]"
proof -
  have h: "None = (None :: int option) \<or> None = Some (0::int)"
    and h0: "Some 0 = (None :: int option) \<or> Some 0 = Some (0::int)"
    by simp_all
  show ?thesis
    using uart_read_frame_default_timeout [OF h, of "\<lparr> t1char = 1145, t35chars = 4010, ctrlPin = None \<rparr>"
        "[(1 / 200, [1, 3])]"]
      uart_read_frame_default_timeout [OF h0, of "\<lparr> t1char = 1145, t35chars = 4010, ctrlPin = None \<rparr>" "[]"]
    by (simp add: uart_read_frame_def US_TO_S_def Let_def)
qed

text \<open>
  C3. For every inbound RTU frame whose unit address is not in the address list given to
  \<open>get_request\<close>, the call returns \<open>None\<close> without an error and leaves the world as it
  was: nothing is written to the UART, neither a response nor an exception response.
\<close>

theorem get_request_foreign_address:
  assumes "fst (uart_read_frame srv timeout arrivals) = unit_addr # frame"
    and "uint unit_addr \<notin> set addrs"
  shows "get_request srv new_request (Some addrs) timeout arrivals w
           = Inr (None, snd (uart_read_frame srv timeout arrivals), w)"
proof -
  obtain reads where run: "uart_read_frame srv timeout arrivals = (unit_addr # frame, reads)"
    using assms(1) by (cases "uart_read_frame srv timeout arrivals") simp
  have "parse_request (unit_addr # frame) (Some addrs) = None"
    using assms(2) by (simp add: parse_request_def)
  then show ?thesis
    by (simp add: get_request_def run)
qed

theorem get_request_foreign_address_witness:
  "fst (uart_read_frame \<lparr> t1char = 1145, t35chars = 4010, ctrlPin = Some 12 \<rparr> None
          [(0, [1, 3, 0, 0, 0, 1, 132, 10])]) = 1 # [3, 0, 0, 0, 1, 132, 10]
   \<and> uint (1 :: byte) \<notin> set [10]
   \<and> get_request \<lparr> t1char = 1145, t35chars = 4010, ctrlPin = Some 12 \<rparr> (\<lambda>data. Inr data)
        (Some [10]) None [(0, [1, 3, 0, 0, 0, 1, 132, 10])]
        \<lparr> now = 5, ticks_period = 0, latency = [], trace = [] \<rparr>
     = Inr (None,
            [WaitForRead (401 / 50000) (Some [1, 3, 0, 0, 0, 1, 132, 10]),
             WaitForRead (401 / 100000) None],
            \<lparr> now = 5, ticks_period = 0, latency = [], trace = [] \<rparr>)"
proof -
  have frame: "uart_read_frame \<lparr> t1char = 1145, t35chars = 4010, ctrlPin = Some 12 \<rparr> None
          [(0, [1, 3, 0, 0, 0, 1, 132, 10])]
        = (1 # [3, 0, 0, 0, 1, 132, 10],
           [WaitForRead (401 / 50000) (Some [1, 3, 0, 0, 0, 1, 132, 10]),
            WaitForRead (401 / 100000) None])"
    by (simp add: uart_read_frame_def US_TO_S_def Let_def)
  have h1: "fst (uart_read_frame \<lparr> t1char = 1145, t35chars = 4010, ctrlPin = Some 12 \<rparr> None
          [(0, [1, 3, 0, 0, 0, 1, 132, 10])]) = 1 # [3, 0, 0, 0, 1, 132, 10]"
    unfolding frame by simp
  have h2: "uint (1 :: byte) \<notin> set [10]"
    by simp
  show ?thesis
    using h1 h2 get_request_foreign_address [OF h1 h2, of "\<lambda>data. Inr data"
        "\<lparr> now = 5, ticks_period = 0, latency = [], trace = [] \<rparr>"]
    unfolding frame by simp
qed

subsection \<open>Transaction ids of TCP responses\<close>

text \<open>
  The model of the validation agrees with the cases of \<open>test__validate_resp_hdr\<close> and
  \<open>test__create_mbap_hdr\<close> in tests/test_tcp_example.py.
\<close>

lemma validate_resp_hdr_test_vectors:
  "validate_resp_hdr h [0x00, 0x01, 0x00, 0x00, 0x00, 0x04, 0x0a, 0x01, 0x01, 0x01] 1 10 1
     = (Inr [0x01, 0x01], h)"
  "validate_resp_hdr h [0x00, 0x02, 0x00, 0x00, 0x00, 0x04, 0x0a, 0x01, 0x01, 0x01] 2 10 1
     = (Inr [0x01, 0x01], h)"
  "validate_resp_hdr h [0x00, 0x03, 0x00, 0x00, 0x00, 0x04, 0x0a, 0x02, 0x01, 0x00] 3 10 2
     = (Inr [0x01, 0x00], h)"
  "validate_resp_hdr h [0x00, 0x04, 0x00, 0x00, 0x00, 0x05, 0x0a, 0x03, 0x02, 0x00, 0x13] 4 10 3
     = (Inr [0x02, 0x00, 0x13], h)"
  "validate_resp_hdr h [0x00, 0x05, 0x00, 0x00, 0x00, 0x05, 0x0a, 0x04, 0x02, 0xea, 0x0a] 5 10 4
     = (Inr [0x02, 0xea, 0x0a], h)"
  "validate_resp_hdr h [0x00, 0x06, 0x00, 0x00, 0x00, 0x06, 0x0a, 0x05, 0x00, 0x7b, 0x00, 0x00]
     6 10 5 = (Inr [0x00, 0x7b, 0x00, 0x00], h)"
  "validate_resp_hdr h [0x00, 0x07, 0x00, 0x00, 0x00, 0x06, 0x0a, 0x06, 0x00, 0x5d, 0x00, 0x14]
     7 10 6 = (Inr [0x00, 0x5d, 0x00, 0x14], h)"
  by (simp_all add: validate_resp_hdr_def tcp_unwrap_def be16_def)

lemma create_mbap_hdr_test_vector:
  "create_mbap_hdr \<lparr> trans_id_ctr = 0x0123 \<rparr> 0x0a [0x05, 0x00, 0x7b, 0xff, 0x00]
     = (([0x01, 0x23, 0x00, 0x00, 0x00, 0x06, 0x0a], 0x0123), \<lparr> trans_id_ctr = 0x0124 \<rparr>)"
  by (simp add: create_mbap_hdr_def be16_bytes_def)

lemma validate_resp_hdr_other_transaction:
  assumes "tcp_unwrap response = Inr (rec_uid, pdu, rec_tid)"
    and "rec_tid \<noteq> trans_id"
  shows "validate_resp_hdr host response trans_id slave_addr function_code
           = (Inl UnexpectedTransaction, host)"
  using assms by (simp add: validate_resp_hdr_def)

text \<open>
  C8. For every TCP response whose transaction id (the one its MBAP header unwraps to)
  differs from the one issued for the request, the validation ends in the error
  \<open>UnexpectedTransaction\<close> and leaves the host's state as it was; and a request that
  meets such a response has sent its frame once, has read that one response and no
  other, and ends in the error with the state the host had when the request was issued:
  nothing is retried.
\<close>

theorem validate_resp_hdr_unexpected_transaction:
  assumes "tcp_unwrap response = Inr (rec_uid, pdu, rec_tid)"
    and "rec_tid \<noteq> trans_id"
  shows "validate_resp_hdr host response trans_id slave_addr function_code
           = (Inl UnexpectedTransaction, host)
       \<and> (trans_id = trans_id_ctr host \<longrightarrow>
            tcp_send_receive host \<lparr> sent = out, inbox = response # later \<rparr> slave_addr
                function_code request_fields
              = (Inl UnexpectedTransaction,
                 snd (create_mbap_hdr host slave_addr (function_code # request_fields)),
                 \<lparr> sent = out @ [fst (fst (create_mbap_hdr host slave_addr
                                               (function_code # request_fields)))
                                   @ function_code # request_fields],
                    inbox = later \<rparr>))"
proof (intro conjI impI)
  show "validate_resp_hdr host response trans_id slave_addr function_code
          = (Inl UnexpectedTransaction, host)"
    by (rule validate_resp_hdr_other_transaction [OF assms])
next
  assume issued: "trans_id = trans_id_ctr host"
  obtain hdr host' where hdr:
    "create_mbap_hdr host slave_addr (function_code # request_fields)
       = ((hdr, trans_id_ctr host), host')"
    by (simp add: create_mbap_hdr_def Let_def)
  have "validate_resp_hdr host' response (trans_id_ctr host) slave_addr function_code
          = (Inl UnexpectedTransaction, host')"
    using assms issued by (intro validate_resp_hdr_other_transaction) auto
  then show "tcp_send_receive host \<lparr> sent = out, inbox = response # later \<rparr> slave_addr
                function_code request_fields
              = (Inl UnexpectedTransaction,
                 snd (create_mbap_hdr host slave_addr (function_code # request_fields)),
                 \<lparr> sent = out @ [fst (fst (create_mbap_hdr host slave_addr
                                               (function_code # request_fields)))
                                   @ function_code # request_fields],
                    inbox = later \<rparr>)"
    by (simp add: tcp_send_receive_def hdr)
qed

theorem validate_resp_hdr_unexpected_transaction_witness:
  "tcp_unwrap [0, 7, 0, 0, 0, 6, 10, 6, 0, 93, 0, 20] = Inr (10, [6, 0, 93, 0, 20], 7)
   \<and> (7 :: 16 word) \<noteq> 10
   \<and> validate_resp_hdr \<lparr> trans_id_ctr = 11 \<rparr> [0, 7, 0, 0, 0, 6, 10, 6, 0, 93, 0, 20] 10 10 3
       = (Inl UnexpectedTransaction, \<lparr> trans_id_ctr = 11 \<rparr>)
   \<and> tcp_send_receive \<lparr> trans_id_ctr = 10 \<rparr>
        \<lparr> sent = [], inbox = [[0, 7, 0, 0, 0, 6, 10, 6, 0, 93, 0, 20], [0, 10, 0, 0, 0, 5, 10, 3, 2, 0, 19]] \<rparr>
        10 3 [0, 93, 0, 1]
       = (Inl UnexpectedTransaction, \<lparr> trans_id_ctr = 11 \<rparr>,
          \<lparr> sent = [[0, 10, 0, 0, 0, 6, 10, 3, 0, 93, 0, 1]],
             inbox = [[0, 10, 0, 0, 0, 5, 10, 3, 2, 0, 19]] \<rparr>)"
proof -
  have h1: "tcp_unwrap [0, 7, 0, 0, 0, 6, 10, 6, 0, 93, 0, 20] = Inr (10, [6, 0, 93, 0, 20], 7)"
    by (simp add: tcp_unwrap_def be16_def)
  have h2: "(7 :: 16 word) \<noteq> 10"
    by simp
  have hdr: "create_mbap_hdr \<lparr> trans_id_ctr = 10 \<rparr> 10 [3, 0, 93, 0, 1]
               = (([0, 10, 0, 0, 0, 6, 10], 10), \<lparr> trans_id_ctr = 11 \<rparr>)"
    by (simp add: create_mbap_hdr_def be16_bytes_def)
  show ?thesis
    using h1 h2
      validate_resp_hdr_unexpected_transaction [OF h1 h2, of "\<lparr> trans_id_ctr = 11 \<rparr>" 10 3]
      validate_resp_hdr_unexpected_transaction [OF h1 h2, of "\<lparr> trans_id_ctr = 10 \<rparr>" 10 3 "[]"
        "[[0, 10, 0, 0, 0, 5, 10, 3, 2, 0, 19]]" "[0, 93, 0, 1]"]
    by (simp add: hdr)
qed

end
